theory Spec2Isabelle
  imports Main
begin

section \<open>Python string primitives used by the script\<close>

text \<open>
  Strings are lists of 8-bit characters. \<open>isspace\<close> lists the characters below code 256
  that Python's \<open>str.split()\<close> treats as whitespace.
\<close>

definition isspace :: "char \<Rightarrow> bool" where
  "isspace c = (of_char c \<in> {9, 10, 11, 12, 13, 28, 29, 30, 31, 32, 133, 160 :: nat})"

text \<open>Cutting a string at every character that satisfies \<open>p\<close>; k cuts give k + 1 pieces.\<close>

fun split_where :: "(char \<Rightarrow> bool) \<Rightarrow> string \<Rightarrow> string list" where
  "split_where p [] = [[]]"
| "split_where p (c # cs) =
     (if p c then [] # split_where p cs
      else (case split_where p cs of [] \<Rightarrow> [[c]] | w # ws \<Rightarrow> (c # w) # ws))"

text \<open>\<^verbatim>\<open>s.split(' ')\<close>: cut at every single space, empty pieces kept.\<close>

definition split_space :: "string \<Rightarrow> string list" where
  "split_space s = split_where (\<lambda>c. c = CHR '' '') s"

text \<open>\<^verbatim>\<open>s.split()\<close>: cut at runs of whitespace, empty pieces dropped.\<close>

definition split_ws :: "string \<Rightarrow> string list" where
  "split_ws s = filter (\<lambda>w. w \<noteq> []) (split_where isspace s)"

text \<open>\<^verbatim>\<open>' '.join(ws)\<close>\<close>

fun join_space :: "string list \<Rightarrow> string" where
  "join_space [] = []"
| "join_space [w] = w"
| "join_space (w # ws) = w @ CHR '' '' # join_space ws"

text \<open>Decimal rendering of integers, as an f-string prints them.\<close>

fun str_nat :: "nat \<Rightarrow> string" where
  "str_nat n =
     (if n < 10 then [''0123456789'' ! n]
      else str_nat (n div 10) @ [''0123456789'' ! (n mod 10)])"

declare str_nat.simps [simp del]

definition str_int :: "int \<Rightarrow> string" where
  "str_int i = (if i < 0 then CHR ''-'' # str_nat (nat (- i)) else str_nat (nat i))"

text \<open>Literal substring search: does \<open>pat\<close> occur in \<open>s\<close>?\<close>

fun occurs_in :: "string \<Rightarrow> string \<Rightarrow> bool" where
  "occurs_in pat [] = (pat = [])"
| "occurs_in pat (c # cs) = (take (length pat) (c # cs) = pat \<or> occurs_in pat cs)"

section \<open>Data model\<close>

text \<open>
  A cell of the Rating column: a number, a text that is still to be parsed, or the
  missing value. After \<^verbatim>\<open>pd.to_numeric(..., errors='coerce')\<close> no \<open>Text\<close> is left.
\<close>

datatype cell = Num int | Text string | NaN

text \<open>
  A puzzle row with the four columns the script reads. The Themes cell may be missing.
\<close>

record row =
  FEN :: string
  Rating :: cell
  Themes :: "string option"
  Moves :: string

text \<open>
  A data frame is the list of its rows in order, each with its index label. A table
  read by \<^verbatim>\<open>load_puzzles\<close> carries the labels 0, 1, 2, ...
\<close>

type_synonym table = "(int \<times> row) list"

definition range_index :: "row list \<Rightarrow> table" where
  "range_index rows = zip (map int [0..<length rows]) rows"

datatype error =
    ValueError string
  | InvalidMoveError string
  | AssertionError string
  | TypeError

section \<open>The libraries the script calls\<close>

text \<open>
  The numeric parser and the pattern search of the data-frame library are parameters:
  \<open>parse_numeric s\<close> is the number a text cell coerces to (\<open>None\<close> when coercion
  fails) and \<open>pattern_search pat s\<close> tells whether \<^verbatim>\<open>str.contains\<close> finds \<open>pat\<close> in
  \<open>s\<close>.
\<close>

record frames =
  parse_numeric :: "string \<Rightarrow> int option"
  pattern_search :: "string \<Rightarrow> string \<Rightarrow> bool"

text \<open>
  The chess rules library, over its own types \<open>'b\<close> of boards and \<open>'m\<close> of moves.
  \<open>Board\<close> and \<open>from_uci\<close> return \<open>None\<close> where the library raises on malformed
  notation. \<open>san\<close> returns \<open>None\<close> where it raises, which the library does by an assertion
  when no piece stands on the square the move starts from; it makes no test of legality,
  and neither does \<open>push\<close>. \<open>turn\<close> is true when White is to move. \<open>legal\<close> is the
  library's own test of legality, \<^verbatim>\<open>board.is_legal(move)\<close>; the script never calls it, and
  it serves to state which moves are legal.
\<close>

record ('b, 'm) chess =
  Board :: "string \<Rightarrow> 'b option"
  from_uci :: "string \<Rightarrow> 'm option"
  push :: "'b \<Rightarrow> 'm \<Rightarrow> 'b"
  fen :: "'b \<Rightarrow> string"
  san :: "'b \<Rightarrow> 'm \<Rightarrow> string option"
  turn :: "'b \<Rightarrow> bool"
  legal :: "'b \<Rightarrow> 'm \<Rightarrow> bool"

section \<open>filter_puzzles\<close>

text \<open>\<^verbatim>\<open>pd.to_numeric(data["Rating"], errors='coerce')\<close>, cell by cell.\<close>

fun to_numeric :: "frames \<Rightarrow> cell \<Rightarrow> cell" where
  "to_numeric P (Num v) = Num v"
| "to_numeric P (Text s) = (case parse_numeric P s of None \<Rightarrow> NaN | Some v \<Rightarrow> Num v)"
| "to_numeric P NaN = NaN"

definition coerce_rating :: "frames \<Rightarrow> table \<Rightarrow> table" where
  "coerce_rating P data = map (\<lambda>(idx, r). (idx, r\<lparr>Rating := to_numeric P (Rating r)\<rparr>)) data"

text \<open>
  The column that line 11 leaves holds 64-bit integers when every cell is a number, and
  64-bit floats as soon as one cell is missing. In a column of floats the comparisons of
  lines 14 and 16 are comparisons of floats, the bound converted as well.

  \<open>float64 v\<close> is the float nearest to the integer \<open>v\<close>, written as an integer: \<open>v\<close> itself
  up to the magnitude \<open>2 ^ 53\<close>, and beyond it \<open>v\<close> rounded to 53 binary digits, a tie
  going to the even neighbour. Integers outside the range of 64-bit integers, or of finite
  floats, are not modelled.
\<close>

definition exact :: "int \<Rightarrow> bool" where
  "exact v = (\<bar>v\<bar> \<le> 2 ^ 53)"

fun excess_bits :: "nat \<Rightarrow> nat" where
  "excess_bits a = (if a < 2 ^ 53 then 0 else Suc (excess_bits (a div 2)))"

declare excess_bits.simps [simp del]

definition float64 :: "int \<Rightarrow> int" where
  "float64 v =
     (if exact v then v
      else
        (let a = nat \<bar>v\<bar>;
             e = excess_bits a;
             q = a div 2 ^ e;
             r = a mod 2 ^ e;
             q' = (if 2 ^ e < 2 * r \<or> (2 * r = 2 ^ e \<and> odd q) then q + 1 else q)
         in sgn v * int (q' * 2 ^ e)))"

definition float_column :: "table \<Rightarrow> bool" where
  "float_column data = list_ex (\<lambda>(idx, r). Rating r = NaN) data"

text \<open>
  Comparisons of a numeric cell with a bound, in a column of floats or of integers; a
  missing number compares false.
\<close>

fun cell_ge :: "bool \<Rightarrow> cell \<Rightarrow> int \<Rightarrow> bool" where
  "cell_ge as_float (Num v) b = (if as_float then float64 b \<le> float64 v else b \<le> v)"
| "cell_ge as_float _ b = False"

fun cell_le :: "bool \<Rightarrow> cell \<Rightarrow> int \<Rightarrow> bool" where
  "cell_le as_float (Num v) b = (if as_float then float64 v \<le> float64 b else v \<le> b)"
| "cell_le as_float _ b = False"

text \<open>\<^verbatim>\<open>data[mask]\<close>: the rows whose mask entry is true, in order, labels kept.\<close>

definition boolean_index :: "table \<Rightarrow> bool list \<Rightarrow> table" where
  "boolean_index data keep = map fst (filter snd (zip data keep))"

text \<open>
  Lines 13 to 16. \<^verbatim>\<open>if min_rating:\<close> tests the truth value of the bound, so a bound
  that is absent or zero is not applied. Selecting rows does not change the type of the
  column, so both comparisons are made in the type that line 11 has left.
\<close>

definition rating_stage :: "int option \<Rightarrow> int option \<Rightarrow> table \<Rightarrow> table" where
  "rating_stage min_rating max_rating data =
     (let as_float = float_column data;
          data1 = (case min_rating of
                     None \<Rightarrow> data
                   | Some lo \<Rightarrow>
                       if lo \<noteq> 0
                       then boolean_index data (map (\<lambda>(idx, r). cell_ge as_float (Rating r) lo) data)
                       else data)
      in (case max_rating of
            None \<Rightarrow> data1
          | Some hi \<Rightarrow>
              if hi \<noteq> 0
              then boolean_index data1 (map (\<lambda>(idx, r). cell_le as_float (Rating r) hi) data1)
              else data1))"

text \<open>
  \<^verbatim>\<open>data["Themes"].str.contains(theme, na=False)\<close>: one boolean per row. The search is
  a search for a pattern, and the model leaves open what a tag matches. It covers the
  calls that return: a tag that is a valid pattern, on a column with a text in it.
\<close>

definition str_contains :: "frames \<Rightarrow> string \<Rightarrow> table \<Rightarrow> bool list" where
  "str_contains P theme data =
     map (\<lambda>(idx, r). case Themes r of None \<Rightarrow> False | Some s \<Rightarrow> pattern_search P theme s) data"

text \<open>
  Lines 18 to 30. The mask starts all true in both modes and is combined with each
  tag's column of booleans by \<open>&=\<close> or by \<open>|=\<close>.
\<close>

definition theme_mask :: "frames \<Rightarrow> string \<Rightarrow> bool \<Rightarrow> table \<Rightarrow> bool list" where
  "theme_mask P themes all_themes data =
     (let filter_mask = replicate (length data) True
      in if all_themes
         then fold (\<lambda>theme m. map2 (\<and>) m (str_contains P theme data)) (split_space themes) filter_mask
         else fold (\<lambda>theme m. map2 (\<or>) m (str_contains P theme data)) (split_space themes) filter_mask)"

definition theme_stage :: "frames \<Rightarrow> string option \<Rightarrow> bool \<Rightarrow> table \<Rightarrow> table" where
  "theme_stage P themes all_themes data =
     (case themes of
        None \<Rightarrow> data
      | Some ts \<Rightarrow> if ts \<noteq> [] then boolean_index data (theme_mask P ts all_themes data) else data)"

text \<open>\<^verbatim>\<open>data.at[idx, col] = v\<close>: every row labelled \<open>idx\<close> gets the new cell.\<close>

definition at_set :: "int \<Rightarrow> (row \<Rightarrow> row) \<Rightarrow> table \<Rightarrow> table" where
  "at_set idx upd data = map (\<lambda>(i, r). if i = idx then (i, upd r) else (i, r)) data"

definition skip_message :: "int \<Rightarrow> string" where
  "skip_message idx = ''Skipping row '' @ str_int (idx + 1) @ '': Insufficient moves''"

text \<open>
  Lines 32 to 40. The loop runs over the rows as they were when it started and writes
  into the table by label. The result is the list of lines printed, and either the
  error that ended the loop or the table after it.
\<close>

fun iterrows_loop ::
  "('b, 'm) chess \<Rightarrow> (int \<times> row) list \<Rightarrow> table \<Rightarrow> string list \<times> (error + table)" where
  "iterrows_loop C [] data = ([], Inr data)"
| "iterrows_loop C ((idx, row) # rest) data =
     (let moves = split_ws (Moves row) in
      if 2 \<le> length moves then
        (case Board C (FEN row) of
           None \<Rightarrow> ([], Inl (ValueError (FEN row)))
         | Some board \<Rightarrow>
             (case from_uci C (hd moves) of
                None \<Rightarrow> ([], Inl (InvalidMoveError (hd moves)))
              | Some mv \<Rightarrow>
                  iterrows_loop C rest
                    (at_set idx (\<lambda>r. r\<lparr>Moves := join_space (tl moves)\<rparr>)
                      (at_set idx (\<lambda>r. r\<lparr>FEN := fen C (push C board mv)\<rparr>) data))))
      else
        (case iterrows_loop C rest data of
           (out, res) \<Rightarrow> (skip_message idx # out, res)))"

text \<open>
  \<^verbatim>\<open>data.iloc[:n, :]\<close>: the first \<open>n\<close> rows, and for a negative \<open>n\<close> all but the last
  \<open>- n\<close> rows.
\<close>

definition iloc_head :: "int \<Rightarrow> table \<Rightarrow> table" where
  "iloc_head n data = (if 0 \<le> n then take (nat n) data else take (nat (int (length data) + n)) data)"

text \<open>
  Lines 41 to 44. Comparing the row count with an absent cap raises a type error.
\<close>

definition cap_stage :: "int option \<Rightarrow> table \<Rightarrow> error + table" where
  "cap_stage n data =
     (case n of
        None \<Rightarrow> Inl TypeError
      | Some k \<Rightarrow> if int (length data) \<le> k then Inr data else Inr (iloc_head k data))"

text \<open>The rows that pass the rating and theme filters, before any position is advanced.\<close>

definition passing ::
  "frames \<Rightarrow> table \<Rightarrow> string option \<Rightarrow> bool \<Rightarrow> int option \<Rightarrow> int option \<Rightarrow> table" where
  "passing P data themes all_themes min_rating max_rating =
     theme_stage P themes all_themes (rating_stage min_rating max_rating (coerce_rating P data))"

definition filter_puzzles ::
  "frames \<Rightarrow> ('b, 'm) chess \<Rightarrow> table \<Rightarrow> string option \<Rightarrow> bool \<Rightarrow> int option \<Rightarrow> int option
     \<Rightarrow> int option \<Rightarrow> string list \<times> (error + table)" where
  "filter_puzzles P C data themes all_themes min_rating max_rating n =
     (let data1 = passing P data themes all_themes min_rating max_rating in
      case iterrows_loop C data1 data1 of
        (out, Inl e) \<Rightarrow> (out, Inl e)
      | (out, Inr data2) \<Rightarrow> (out, cap_stage n data2))"

section \<open>translate_moves and black_or_white\<close>

text \<open>
  The loop of lines 49 to 53, with the board and the list of translated moves as its
  state.
\<close>

fun translate_loop ::
  "('b, 'm) chess \<Rightarrow> string list \<Rightarrow> 'b \<Rightarrow> string list \<Rightarrow> error + ('b \<times> string list)" where
  "translate_loop C [] board proper_moves = Inr (board, proper_moves)"
| "translate_loop C (move # rest) board proper_moves =
     (case from_uci C move of
        None \<Rightarrow> Inl (InvalidMoveError move)
      | Some chess_move \<Rightarrow>
          (case san C board chess_move of
             None \<Rightarrow> Inl (AssertionError move)
           | Some algebraic_move \<Rightarrow>
               translate_loop C rest (push C board chess_move) (proper_moves @ [algebraic_move])))"

definition translate_moves :: "('b, 'm) chess \<Rightarrow> string \<Rightarrow> string \<Rightarrow> error + string" where
  "translate_moves C moves fen_text =
     (case Board C fen_text of
        None \<Rightarrow> Inl (ValueError fen_text)
      | Some board \<Rightarrow>
          (case translate_loop C (split_space moves) board [] of
             Inl e \<Rightarrow> Inl e
           | Inr (final_board, proper_moves) \<Rightarrow> Inr (join_space proper_moves)))"

abbreviation bs :: char where "bs \<equiv> CHR 0x5C"

definition black_or_white :: "('b, 'm) chess \<Rightarrow> string \<Rightarrow> bool \<Rightarrow> error + string" where
  "black_or_white C fen_text answer =
     (if answer then
        (case Board C fen_text of
           None \<Rightarrow> Inl (ValueError fen_text)
         | Some board \<Rightarrow> Inr (if turn C board then bs # ''whitecircle'' else bs # ''blackcircle''))
      else
        (case Board C fen_text of
           None \<Rightarrow> Inl (ValueError fen_text)
         | Some board \<Rightarrow> Inr (if turn C board then [] else ''... '')))"

section \<open>generate_text and main\<close>


















section \<open>Notions used in the statements\<close>

text \<open>Does the pattern search find the tag in the Themes cell of a row? A missing cell never matches.\<close>

definition hit :: "frames \<Rightarrow> string \<Rightarrow> int \<times> row \<Rightarrow> bool" where
  "hit P theme x = (case Themes (snd x) of None \<Rightarrow> False | Some s \<Rightarrow> pattern_search P theme s)"

text \<open>The rating tests of lines 13 to 16 on one row; a bound that is absent or zero passes every row.\<close>

definition lo_ok :: "bool \<Rightarrow> int option \<Rightarrow> int \<times> row \<Rightarrow> bool" where
  "lo_ok as_float min_rating x =
     (case min_rating of None \<Rightarrow> True | Some lo \<Rightarrow> lo = 0 \<or> cell_ge as_float (Rating (snd x)) lo)"

definition hi_ok :: "bool \<Rightarrow> int option \<Rightarrow> int \<times> row \<Rightarrow> bool" where
  "hi_ok as_float max_rating x =
     (case max_rating of None \<Rightarrow> True | Some hi \<Rightarrow> hi = 0 \<or> cell_le as_float (Rating (snd x)) hi)"

text \<open>
  Numbers that a column of floats holds as they are: a cell and a bound of magnitude at
  most \<open>2 ^ 53\<close>.
\<close>

definition exact_cell :: "cell \<Rightarrow> bool" where
  "exact_cell c = (case c of Num v \<Rightarrow> exact v | Text s \<Rightarrow> True | NaN \<Rightarrow> True)"

definition exact_bound :: "int option \<Rightarrow> bool" where
  "exact_bound b = (case b of None \<Rightarrow> True | Some v \<Rightarrow> exact v)"

text \<open>
  What the body of the loop of lines 32 to 38 writes into a row \<open>r\<close> labelled like the row
  \<open>row\<close> it has read, once the position and the first move have been parsed.
\<close>

definition advance :: "('b, 'm) chess \<Rightarrow> row \<Rightarrow> row \<Rightarrow> row" where
  "advance C row r =
     (let moves = split_ws (Moves row) in
      if 2 \<le> length moves then
        (case Board C (FEN row) of
           None \<Rightarrow> r
         | Some board \<Rightarrow>
             (case from_uci C (hd moves) of
                None \<Rightarrow> r
              | Some mv \<Rightarrow> r\<lparr>FEN := fen C (push C board mv), Moves := join_space (tl moves)\<rparr>))
      else r)"

text \<open>A row with fewer than two moves.\<close>

definition short :: "int \<times> row \<Rightarrow> bool" where
  "short x = (length (split_ws (Moves (snd x))) < 2)"

text \<open>The label of a row with the two cells that the loop never writes.\<close>

definition kept_columns :: "int \<times> row \<Rightarrow> int \<times> cell \<times> string option" where
  "kept_columns x = (fst x, Rating (snd x), Themes (snd x))"

section \<open>Concrete libraries for the examples\<close>

text \<open>
  A parser for unsigned decimal numerals and the literal substring search stand for
  the data-frame library in the examples below.
\<close>

fun parse_digits :: "string \<Rightarrow> nat \<Rightarrow> nat option" where
  "parse_digits [] acc = Some acc"
| "parse_digits (c # cs) acc =
     (if of_char c \<in> {48..57 :: nat} then parse_digits cs (10 * acc + (of_char c - 48))
      else None)"

definition plain_frames :: frames where
  "plain_frames =
     \<lparr>parse_numeric = (\<lambda>s. if s = [] then None else map_option int (parse_digits s 0)),
      pattern_search = occurs_in\<rparr>"

text \<open>
  A fragment of the chess rules library, as a table of calls with the answers of the
  library: the line 1. e4 e5 2. Nf3 from the initial position, and two moves that are
  not legal and that the library translates all the same, the pawn move \<^verbatim>\<open>e2e5\<close> in
  the initial position and the knight move \<^verbatim>\<open>g1f4\<close> after 1. e4 e5. Each entry holds
  the position, the move, its algebraic notation, the position after the move and
  whether the move is legal. A board is its position notation, a move its coordinate
  text. \<open>from_uci\<close> accepts four or five characters that name two different squares and
  an optional promotion piece; the null move and drops are left out. The instance
  answers the calls of the table as the library does. It rejects every other position
  and every other move, so it says nothing about the library there: of the moves that
  are not in the table, the examples use only \<^verbatim>\<open>e2e4\<close> after 1. e4, which the library
  rejects too, for the square e2 is empty then.
\<close>

definition start_fen :: string where
  "start_fen = ''rnbqkbnr/pppppppp/8/8/8/8/PPPPPPPP/RNBQKBNR w KQkq - 0 1''"

definition fen_e4 :: string where
  "fen_e4 = ''rnbqkbnr/pppppppp/8/8/4P3/8/PPPP1PPP/RNBQKBNR b KQkq - 0 1''"

definition fen_e4_e5 :: string where
  "fen_e4_e5 = ''rnbqkbnr/pppp1ppp/8/4p3/4P3/8/PPPP1PPP/RNBQKBNR w KQkq - 0 2''"

definition fen_e4_e5_Nf3 :: string where
  "fen_e4_e5_Nf3 = ''rnbqkbnr/pppp1ppp/8/4p3/4P3/5N2/PPPP1PPP/RNBQKB1R b KQkq - 1 2''"

definition fen_e2e5 :: string where
  "fen_e2e5 = ''rnbqkbnr/pppppppp/8/4P3/8/8/PPPP1PPP/RNBQKBNR b KQkq - 0 1''"

definition fen_e4_e5_g1f4 :: string where
  "fen_e4_e5_g1f4 = ''rnbqkbnr/pppp1ppp/8/4p3/4PN2/8/PPPP1PPP/RNBQKB1R b KQkq - 1 2''"

definition opening_line :: "(string \<times> string \<times> string \<times> string \<times> bool) list" where
  "opening_line =
     [(start_fen, ''e2e4'', ''e4'', fen_e4, True),
      (fen_e4, ''e7e5'', ''e5'', fen_e4_e5, True),
      (fen_e4_e5, ''g1f3'', ''Nf3'', fen_e4_e5_Nf3, True),
      (start_fen, ''e2e5'', ''e5'', fen_e2e5, False),
      (fen_e4_e5, ''g1f4'', ''Nf4'', fen_e4_e5_g1f4, False)]"

definition is_square :: "string \<Rightarrow> bool" where
  "is_square s =
     (case s of [f, r] \<Rightarrow> f \<in> set ''abcdefgh'' \<and> r \<in> set ''12345678'' | _ \<Rightarrow> False)"

definition uci_shape :: "string \<Rightarrow> bool" where
  "uci_shape u =
     ((length u = 4 \<or> (length u = 5 \<and> u ! 4 \<in> set ''pnbrqk''))
      \<and> is_square (take 2 u) \<and> is_square (take 2 (drop 2 u))
      \<and> take 2 u \<noteq> take 2 (drop 2 u))"

definition mini_chess :: "(string, string) chess" where
  "mini_chess =
     \<lparr>Board = (\<lambda>f. if f \<in> set [start_fen, fen_e4, fen_e4_e5, fen_e4_e5_Nf3, fen_e2e5, fen_e4_e5_g1f4]
                    then Some f else None),
      from_uci = (\<lambda>u. if uci_shape u then Some u else None),
      push = (\<lambda>b m. case find (\<lambda>(p, u, s, q, l). p = b \<and> u = m) opening_line of
                        None \<Rightarrow> b
                      | Some (p, u, s, q, l) \<Rightarrow> q),
      fen = (\<lambda>b. b),
      san = (\<lambda>b m. case find (\<lambda>(p, u, s, q, l). p = b \<and> u = m) opening_line of
                       None \<Rightarrow> None
                     | Some (p, u, s, q, l) \<Rightarrow> Some s),
      turn = (\<lambda>b. take 1 (drop 1 (split_ws b)) = [''w'']),
      legal = (\<lambda>b m. case find (\<lambda>(p, u, s, q, l). p = b \<and> u = m) opening_line of
                         None \<Rightarrow> False
                       | Some (p, u, s, q, l) \<Rightarrow> l)\<rparr>"

text \<open>The example row of the specification, and variations of it.\<close>

definition puzzle :: "cell \<Rightarrow> string \<Rightarrow> string \<Rightarrow> row" where
  "puzzle rating themes moves =
     \<lparr>FEN = start_fen, Rating = rating, Themes = Some themes, Moves = moves\<rparr>"

section \<open>The filter stages as list filters\<close>


lemma boolean_index_map: "boolean_index data (map p data) = filter p data"
  by (induction data) (simp_all add: boolean_index_def)

lemma boolean_index_all: "boolean_index data (replicate (length data) True) = data"
  by (induction data) (simp_all add: boolean_index_def)


lemma str_contains_hit: "str_contains P theme data = map (hit P theme) data"
  by (simp add: str_contains_def hit_def case_prod_unfold)

lemma fold_and_mask:
  "length m = length data \<Longrightarrow>
   fold (\<lambda>theme m. map2 (\<and>) m (str_contains P theme data)) tags m
     = map2 (\<lambda>b x. b \<and> (\<forall>t \<in> set tags. hit P t x)) m data"
proof (induction tags arbitrary: m)
  case Nil
  then show ?case by (intro nth_equalityI) auto
next
  case (Cons t tags)
  have len: "length (map2 (\<and>) m (str_contains P t data)) = length data"
    using Cons.prems by (simp add: str_contains_hit)
  have "map2 (\<lambda>b x. b \<and> (\<forall>t \<in> set tags. hit P t x)) (map2 (\<and>) m (str_contains P t data)) data
      = map2 (\<lambda>b x. b \<and> (\<forall>t' \<in> set (t # tags). hit P t' x)) m data"
    using Cons.prems by (intro nth_equalityI) (auto simp: str_contains_hit)
  with Cons.IH[OF len] show ?case by simp
qed

lemma fold_or_mask:
  "fold (\<lambda>theme m. map2 (\<or>) m (str_contains P theme data)) tags (replicate (length data) True)
     = replicate (length data) True"
proof (induction tags)
  case Nil
  show ?case by simp
next
  case (Cons t tags)
  have "map2 (\<or>) (replicate (length data) True) (str_contains P t data) = replicate (length data) True"
    by (intro nth_equalityI) (auto simp: str_contains_hit)
  with Cons.IH show ?case by simp
qed

lemma theme_mask_all:
  "theme_mask P themes True data = map (\<lambda>x. \<forall>t \<in> set (split_space themes). hit P t x) data"
  by (simp add: theme_mask_def fold_and_mask) (intro nth_equalityI, auto)

lemma theme_mask_any: "theme_mask P themes False data = replicate (length data) True"
  by (simp add: theme_mask_def fold_or_mask)

lemma theme_stage_all:
  "ts \<noteq> [] \<Longrightarrow> theme_stage P (Some ts) True data = filter (\<lambda>x. \<forall>t \<in> set (split_space ts). hit P t x) data"
  by (simp add: theme_stage_def theme_mask_all boolean_index_map)

lemma theme_stage_any: "theme_stage P themes False data = data"
  by (simp add: theme_stage_def theme_mask_any boolean_index_all split: option.splits)

lemma theme_stage_filter: "\<exists>p. theme_stage P themes all_themes data = filter p data"
proof (cases "all_themes")
  case True
  show ?thesis
  proof (cases themes)
    case None
    then show ?thesis by (intro exI[of _ "\<lambda>_. True"]) (simp add: theme_stage_def)
  next
    case (Some ts)
    show ?thesis
    proof (cases "ts = []")
      case True
      with Some show ?thesis by (intro exI[of _ "\<lambda>_. True"]) (simp add: theme_stage_def)
    next
      case False
      with Some \<open>all_themes\<close> theme_stage_all[OF False] show ?thesis by auto
    qed
  qed
next
  case False
  then show ?thesis by (intro exI[of _ "\<lambda>_. True"]) (simp add: theme_stage_any)
qed



lemma rating_stage_filter:
  "rating_stage min_rating max_rating data
     = filter (\<lambda>x. lo_ok (float_column data) min_rating x \<and> hi_ok (float_column data) max_rating x) data"
proof -
  have a: "map (\<lambda>(idx, r). cell_ge f (Rating r) lo) d = map (\<lambda>x. cell_ge f (Rating (snd x)) lo) d"
    for f lo and d :: table
    by (simp add: case_prod_unfold)
  have b: "map (\<lambda>(idx, r). cell_le f (Rating r) hi) d = map (\<lambda>x. cell_le f (Rating (snd x)) hi) d"
    for f hi and d :: table
    by (simp add: case_prod_unfold)
  show ?thesis
    by (auto simp: rating_stage_def Let_def a b boolean_index_map lo_ok_def hi_ok_def
        split: option.splits intro: filter_cong)
qed





lemma at_set_columns: 
  "(\<And>r. Rating (upd r) = Rating r \<and> Themes (upd r) = Themes r) \<Longrightarrow>
   map kept_columns (at_set idx upd data) = map kept_columns data"
  by (induction data) (auto simp: at_set_def kept_columns_def)

lemma loop_columns:
  "iterrows_loop C rows data = (out, Inr data') \<Longrightarrow> map kept_columns data' = map kept_columns data"
proof (induction rows arbitrary: data out)
  case Nil
  then show ?case by simp
next
  case (Cons x rows)
  obtain idx row where x: "x = (idx, row)" by (cases x)
  show ?case
  proof (cases "2 \<le> length (split_ws (Moves row))")
    case True
    with Cons.prems x obtain board mv where
      "iterrows_loop C rows
         (at_set idx (\<lambda>r. r\<lparr>Moves := join_space (tl (split_ws (Moves row)))\<rparr>)
            (at_set idx (\<lambda>r. r\<lparr>FEN := fen C (push C board mv)\<rparr>) data)) = (out, Inr data')"
      by (auto simp: Let_def split: option.splits)
    from Cons.IH[OF this] show ?thesis by (simp add: at_set_columns)
  next
    case False
    with Cons.prems x obtain out' where "iterrows_loop C rows data = (out', Inr data')"
      by (auto simp: Let_def split: prod.splits)
    from Cons.IH[OF this] show ?thesis .
  qed
qed

lemma loop_printed:
  "iterrows_loop C rows data = (out, Inr data') \<Longrightarrow>
   out = map (\<lambda>x. skip_message (fst x)) (filter short rows)"
proof (induction rows arbitrary: data out)
  case Nil
  then show ?case by simp
next
  case (Cons x rows)
  obtain idx row where x: "x = (idx, row)" by (cases x)
  show ?case
  proof (cases "2 \<le> length (split_ws (Moves row))")
    case True
    with Cons.prems x obtain d where "iterrows_loop C rows d = (out, Inr data')"
      by (auto simp: Let_def split: option.splits)
    from Cons.IH[OF this] True x show ?thesis by (simp add: short_def)
  next
    case False
    with Cons.prems x obtain out' where
      "iterrows_loop C rows data = (out', Inr data')" "out = skip_message idx # out'"
      by (auto simp: Let_def split: prod.splits)
    with Cons.IH[of data out'] False x show ?thesis by (simp add: short_def)
  qed
qed

lemma loop_parses:
  "iterrows_loop C rows data = (out, Inr data') \<Longrightarrow> (idx, row) \<in> set rows \<Longrightarrow>
   2 \<le> length (split_ws (Moves row)) \<Longrightarrow>
   \<exists>board mv. Board C (FEN row) = Some board \<and> from_uci C (hd (split_ws (Moves row))) = Some mv"
proof (induction rows arbitrary: data out)
  case Nil
  then show ?case by simp
next
  case (Cons x rows)
  obtain i r where x: "x = (i, r)" by (cases x)
  show ?case
  proof (cases "2 \<le> length (split_ws (Moves r))")
    case True
    with Cons.prems(1) x obtain board mv d where
      ok: "Board C (FEN r) = Some board" "from_uci C (hd (split_ws (Moves r))) = Some mv"
      and rest: "iterrows_loop C rows d = (out, Inr data')"
      by (auto simp: Let_def split: option.splits)
    show ?thesis
    proof (cases "(idx, row) = (i, r)")
      case True
      with ok show ?thesis by simp
    next
      case False
      with Cons.prems(2) x have "(idx, row) \<in> set rows" by auto
      from Cons.IH[OF rest this Cons.prems(3)] show ?thesis .
    qed
  next
    case False
    with Cons.prems(1) x obtain out' where rest: "iterrows_loop C rows data = (out', Inr data')"
      by (auto simp: Let_def split: prod.splits)
    from False Cons.prems(3) have "(idx, row) \<noteq> (i, r)" by auto
    with Cons.prems(2) x have "(idx, row) \<in> set rows" by auto
    from Cons.IH[OF rest this Cons.prems(3)] show ?thesis .
  qed
qed

lemma loop_table:
  "iterrows_loop C rows data = (out, Inr data') \<Longrightarrow> distinct (map fst rows) \<Longrightarrow>
   data' = map (\<lambda>x. case map_of rows (fst x) of
                      None \<Rightarrow> x
                    | Some row \<Rightarrow> (fst x, advance C row (snd x))) data"
proof (induction rows arbitrary: data out)
  case Nil
  then show ?case by simp
next
  case (Cons x rows)
  obtain idx row where x: "x = (idx, row)" by (cases x)
  from Cons.prems(2) x have fresh: "map_of rows idx = None" and dist: "distinct (map fst rows)"
    by (auto simp: map_of_eq_None_iff)
  show ?case
  proof (cases "2 \<le> length (split_ws (Moves row))")
    case True
    with Cons.prems(1) x obtain board mv where
      ok: "Board C (FEN row) = Some board" "from_uci C (hd (split_ws (Moves row))) = Some mv"
      and rest: "iterrows_loop C rows
         (at_set idx (\<lambda>r. r\<lparr>Moves := join_space (tl (split_ws (Moves row)))\<rparr>)
            (at_set idx (\<lambda>r. r\<lparr>FEN := fen C (push C board mv)\<rparr>) data)) = (out, Inr data')"
      by (auto simp: Let_def split: option.splits)
    define g :: "int \<times> row \<Rightarrow> int \<times> row" where
      "g = (\<lambda>(i, r). if i = idx
                 then (i, r\<lparr>FEN := fen C (push C board mv), Moves := join_space (tl (split_ws (Moves row)))\<rparr>)
                 else (i, r))"
    have step: "(case map_of rows (fst (g y)) of None \<Rightarrow> g y | Some w \<Rightarrow> (fst (g y), advance C w (snd (g y))))
        = (case map_of (x # rows) (fst y) of None \<Rightarrow> y | Some w \<Rightarrow> (fst y, advance C w (snd y)))"
      for y :: "int \<times> row"
      using True ok fresh x by (cases y) (auto simp: advance_def g_def split: option.splits)
    have "at_set idx (\<lambda>r. r\<lparr>Moves := join_space (tl (split_ws (Moves row)))\<rparr>)
            (at_set idx (\<lambda>r. r\<lparr>FEN := fen C (push C board mv)\<rparr>) data) = map g data"
      by (simp add: at_set_def g_def case_prod_unfold)
    with Cons.IH[OF rest dist] show ?thesis
      by (simp add: step)
  next
    case False
    with Cons.prems(1) x obtain out' where rest: "iterrows_loop C rows data = (out', Inr data')"
      by (auto simp: Let_def split: prod.splits)
    have "(case map_of rows (fst y) of None \<Rightarrow> y | Some w \<Rightarrow> (fst y, advance C w (snd y)))
        = (case map_of (x # rows) (fst y) of None \<Rightarrow> y | Some w \<Rightarrow> (fst y, advance C w (snd y)))"
      for y :: "int \<times> row"
      using False fresh x by (cases y) (auto simp: advance_def split: option.splits)
    with Cons.IH[OF rest dist] show ?thesis by simp
  qed
qed

lemma loop_table_self:
  assumes "iterrows_loop C rows rows = (out, Inr data')" and "distinct (map fst rows)"
  shows "data' = map (\<lambda>x. (fst x, advance C (snd x) (snd x))) rows"
proof -
  have "(case map_of rows (fst x) of None \<Rightarrow> x | Some row \<Rightarrow> (fst x, advance C row (snd x)))
          = (fst x, advance C (snd x) (snd x))" if "x \<in> set rows" for x
  proof -
    from that have "(fst x, snd x) \<in> set rows" by simp
    with assms(2) have "map_of rows (fst x) = Some (snd x)" by (simp only: map_of_eq_Some_iff)
    then show ?thesis by simp
  qed
  with loop_table[OF assms] show ?thesis by simp
qed


lemma coerce_labels: "map fst (coerce_rating P data) = map fst data"
  by (induction data) (auto simp: coerce_rating_def)

lemma coerce_member:
  "x \<in> set (coerce_rating P data) \<Longrightarrow>
   \<exists>r0. (fst x, r0) \<in> set data \<and> snd x = r0\<lparr>Rating := to_numeric P (Rating r0)\<rparr>"
  by (auto simp: coerce_rating_def)

lemma passing_filter:
  "\<exists>q. passing P data themes all_themes min_rating max_rating = filter q (coerce_rating P data)"
proof -
  obtain p where "theme_stage P themes all_themes (rating_stage min_rating max_rating (coerce_rating P data))
      = filter p (rating_stage min_rating max_rating (coerce_rating P data))"
    using theme_stage_filter by blast
  then have "passing P data themes all_themes min_rating max_rating
      = filter (\<lambda>x. (lo_ok (float_column (coerce_rating P data)) min_rating x
                      \<and> hi_ok (float_column (coerce_rating P data)) max_rating x) \<and> p x)
          (coerce_rating P data)"
    by (simp add: passing_def rating_stage_filter)
  then show ?thesis by blast
qed

lemma passing_member:
  assumes "x \<in> set (passing P data themes all_themes min_rating max_rating)"
  shows "x \<in> set (coerce_rating P data)"
    and "lo_ok (float_column (coerce_rating P data)) min_rating x"
    and "hi_ok (float_column (coerce_rating P data)) max_rating x"
proof -
  obtain p where "theme_stage P themes all_themes (rating_stage min_rating max_rating (coerce_rating P data))
      = filter p (rating_stage min_rating max_rating (coerce_rating P data))"
    using theme_stage_filter by blast
  with assms have "x \<in> set (rating_stage min_rating max_rating (coerce_rating P data))"
    by (simp add: passing_def)
  then show "x \<in> set (coerce_rating P data)"
    and "lo_ok (float_column (coerce_rating P data)) min_rating x"
    and "hi_ok (float_column (coerce_rating P data)) max_rating x"
    by (simp_all add: rating_stage_filter)
qed

lemma passing_distinct:
  "distinct (map fst data) \<Longrightarrow> distinct (map fst (passing P data themes all_themes min_rating max_rating))"
proof -
  assume d: "distinct (map fst data)"
  obtain q where "passing P data themes all_themes min_rating max_rating = filter q (coerce_rating P data)"
    using passing_filter by blast
  with d show ?thesis by (simp add: distinct_map_filter coerce_labels)
qed

lemma passing_origin:
  assumes "distinct (map fst data)" and "(idx, r0) \<in> set data"
    and "x \<in> set (passing P data themes all_themes min_rating max_rating)" and "fst x = idx"
  shows "snd x = r0\<lparr>Rating := to_numeric P (Rating r0)\<rparr>"
proof -
  from passing_member(1)[OF assms(3)] obtain r1 where
    r1: "(fst x, r1) \<in> set data" "snd x = r1\<lparr>Rating := to_numeric P (Rating r1)\<rparr>"
    using coerce_member by blast
  from assms(1,2,4) r1(1) have "r1 = r0" by (metis eq_key_imp_eq_value)
  with r1(2) show ?thesis by simp
qed

lemma filter_puzzles_Inr:
  assumes "filter_puzzles P C data themes all_themes min_rating max_rating n = (out, Inr res)"
  shows "\<exists>data2 k. iterrows_loop C (passing P data themes all_themes min_rating max_rating)
                      (passing P data themes all_themes min_rating max_rating) = (out, Inr data2)
           \<and> n = Some k
           \<and> res = (if int (length data2) \<le> k then data2 else iloc_head k data2)"
  using assms
  by (auto simp: filter_puzzles_def cap_stage_def Let_def split: prod.splits sum.splits option.splits if_splits)

lemma iloc_head_subset: "set (iloc_head k data) \<subseteq> set data"
  by (auto simp: iloc_head_def dest: in_set_takeD)

lemma filter_puzzles_subset:
  assumes "filter_puzzles P C data themes all_themes min_rating max_rating n = (out, Inr res)"
  shows "\<exists>data2. iterrows_loop C (passing P data themes all_themes min_rating max_rating)
                      (passing P data themes all_themes min_rating max_rating) = (out, Inr data2)
           \<and> set res \<subseteq> set data2"
proof -
  from filter_puzzles_Inr[OF assms] obtain data2 k where
    l: "iterrows_loop C (passing P data themes all_themes min_rating max_rating)
          (passing P data themes all_themes min_rating max_rating) = (out, Inr data2)"
    and r: "res = (if int (length data2) \<le> k then data2 else iloc_head k data2)"
    by blast
  from r have "set res \<subseteq> set data2" using iloc_head_subset by (simp split: if_splits)
  with l show ?thesis by blast
qed

text \<open>
  The pass over the rows ends without an error when every row with two or more moves
  has a position and a first move that the chess library parses; then
  \<^verbatim>\<open>filter_puzzles\<close> returns a table for every cap that is present.
\<close>

lemma loop_returns:
  assumes "\<And>idx row. (idx, row) \<in> set rows \<Longrightarrow> 2 \<le> length (split_ws (Moves row)) \<Longrightarrow>
             Board C (FEN row) \<noteq> None \<and> from_uci C (hd (split_ws (Moves row))) \<noteq> None"
  shows "\<exists>out data'. iterrows_loop C rows data = (out, Inr data')"
  using assms
proof (induction rows arbitrary: data)
  case Nil
  then show ?case by simp
next
  case (Cons x rows)
  obtain idx row where x: "x = (idx, row)" by (cases x)
  have rest: "\<exists>out data'. iterrows_loop C rows d = (out, Inr data')" for d
  proof (rule Cons.IH)
    fix i r
    assume "(i, r) \<in> set rows" and "2 \<le> length (split_ws (Moves r))"
    then show "Board C (FEN r) \<noteq> None \<and> from_uci C (hd (split_ws (Moves r))) \<noteq> None"
      using Cons.prems[of i r] by simp
  qed
  show ?case
  proof (cases "2 \<le> length (split_ws (Moves row))")
    case True
    with Cons.prems[of idx row] x obtain board mv where
      "Board C (FEN row) = Some board" "from_uci C (hd (split_ws (Moves row))) = Some mv"
      by auto
    with True x rest show ?thesis by (simp add: Let_def)
  next
    case False
    from rest[of data] obtain out data' where "iterrows_loop C rows data = (out, Inr data')"
      by blast
    with False x show ?thesis by (simp add: Let_def)
  qed
qed

lemma filter_puzzles_returns:
  assumes "\<And>idx row. (idx, row) \<in> set (passing P data themes all_themes min_rating max_rating) \<Longrightarrow>
             2 \<le> length (split_ws (Moves row)) \<Longrightarrow>
             Board C (FEN row) \<noteq> None \<and> from_uci C (hd (split_ws (Moves row))) \<noteq> None"
  shows "\<exists>out res. filter_puzzles P C data themes all_themes min_rating max_rating (Some n) = (out, Inr res)"
proof -
  from loop_returns[of "passing P data themes all_themes min_rating max_rating" C
      "passing P data themes all_themes min_rating max_rating"] assms
  obtain out data' where "iterrows_loop C (passing P data themes all_themes min_rating max_rating)
      (passing P data themes all_themes min_rating max_rating) = (out, Inr data')"
    by blast
  then show ?thesis by (simp add: filter_puzzles_def cap_stage_def)
qed

text \<open>
  On numbers of magnitude at most \<open>2 ^ 53\<close> the comparison in a column of floats is the
  comparison of the integers.
\<close>

lemma float64_exact: "exact v \<Longrightarrow> float64 v = v"
  by (simp add: float64_def)

lemma cell_ge_exact:
  "cell_ge f c lo \<Longrightarrow> exact lo \<Longrightarrow> exact_cell c \<Longrightarrow> \<exists>v. c = Num v \<and> lo \<le> v"
  by (cases c) (auto simp: exact_cell_def float64_exact split: if_splits)

lemma cell_le_exact:
  "cell_le f c hi \<Longrightarrow> exact hi \<Longrightarrow> exact_cell c \<Longrightarrow> \<exists>v. c = Num v \<and> v \<le> hi"
  by (cases c) (auto simp: exact_cell_def float64_exact split: if_splits)

text \<open>
  Beyond that magnitude the two kinds of column differ: in a column with a missing cell,
  a row rated \<open>2 ^ 53\<close> passes the minimum \<open>2 ^ 53 + 1\<close>, which rounds to \<open>2 ^ 53\<close>; in a
  column of integers it does not.
\<close>

lemma excess_bits_example: "excess_bits 9007199254740993 = 1"
  by (subst excess_bits.simps, simp, subst excess_bits.simps, simp)

lemma float64_rounds: "float64 9007199254740993 = 9007199254740992"
  by (simp add: float64_def exact_def excess_bits_example Let_def)

lemma passing_float_column:
  "passing plain_frames
       [(0, puzzle (Num 9007199254740992) ''fork'' ''e2e4''), (1, puzzle NaN ''fork'' ''e2e4'')]
       None True (Some 9007199254740993) None
     = [(0, puzzle (Num 9007199254740992) ''fork'' ''e2e4'')]"
  by (simp add: passing_def theme_stage_def rating_stage_def coerce_rating_def boolean_index_def
      float_column_def puzzle_def float64_rounds float64_exact[unfolded exact_def] Let_def)

lemma passing_integer_column:
  "passing plain_frames [(0, puzzle (Num 9007199254740992) ''fork'' ''e2e4'')]
       None True (Some 9007199254740993) None
     = []"
  by (simp add: passing_def theme_stage_def rating_stage_def coerce_rating_def boolean_index_def
      float_column_def puzzle_def Let_def)

lemma range_index_labels: "map fst (range_index rows) = map int [0..<length rows]"
  by (simp add: range_index_def)

lemma translate_loop_append:
  "translate_loop C pre board acc = Inr (board', acc') \<Longrightarrow>
   translate_loop C (pre @ rest) board acc = translate_loop C rest board' acc'"
  by (induction pre arbitrary: board acc) (auto split: option.splits)

section \<open>Evaluation of the examples\<close>

lemmas example_defs = plain_frames_def mini_chess_def opening_line_def start_fen_def fen_e4_def
  fen_e4_e5_def fen_e4_e5_Nf3_def fen_e2e5_def fen_e4_e5_g1f4_def is_square_def uci_shape_def puzzle_def split_ws_def
  split_space_def isspace_def range_index_def upt_rec str_nat.simps

lemmas filter_defs = filter_puzzles_def passing_def theme_stage_def theme_mask_def
  str_contains_def rating_stage_def coerce_rating_def boolean_index_def cap_stage_def
  iloc_head_def at_set_def skip_message_def str_int_def float_column_def float64_def exact_def

section \<open>The theme filter\<close>

text \<open>
  Claim C1. In the mode "any theme" the mask starts all true and each tag is joined to it
  by \<open>|=\<close>, so the theme filter keeps every row (lemma \<open>theme_stage_any\<close>), also a
  row whose Themes cell holds none of the tags: with the theme \<^verbatim>\<open>fork\<close>, the row whose
  Themes cell is \<^verbatim>\<open>endgame\<close> passes the theme filter and \<^verbatim>\<open>filter_puzzles\<close> returns it.
  In the mode "all themes" the filter keeps exactly the rows in which every tag is found
  (lemma \<open>theme_stage_all\<close>).
\<close>

theorem theme_stage_disjunctive_keeps_unmatched_row:
  "\<not> occurs_in ''fork'' ''endgame''
   \<and> theme_stage plain_frames (Some ''fork'') False
         (range_index [puzzle (Num 1500) ''endgame'' ''e2e4 e7e5 g1f3''])
       = [(0, puzzle (Num 1500) ''endgame'' ''e2e4 e7e5 g1f3'')]
   \<and> filter_puzzles plain_frames mini_chess
         (range_index [puzzle (Num 1500) ''endgame'' ''e2e4 e7e5 g1f3''])
         (Some ''fork'') False None None (Some 10)
       = ([], Inr [(0, \<lparr>FEN = fen_e4, Rating = Num 1500, Themes = Some ''endgame'',
                         Moves = ''e7e5 g1f3''\<rparr>)])"
  by (simp add: filter_defs example_defs)

section \<open>Advancing the position\<close>

text \<open>
  Claim C2. Let the index labels of the table be distinct, as they are in every table
  read by \<^verbatim>\<open>load_puzzles\<close>. For every row that \<^verbatim>\<open>filter_puzzles\<close> returns whose
  original Moves cell splits into the moves m1, m2, ..., mk with k at least two, the
  returned Moves cell is m2 ... mk joined by single spaces, and the returned FEN cell is
  the notation of the position reached by pushing m1 on the original position.
\<close>

theorem filter_puzzles_advances_rows:
  assumes "distinct (map fst data)"
    and "filter_puzzles P C data themes all_themes min_rating max_rating n = (out, Inr res)"
    and "(idx, r') \<in> set res"
    and "(idx, r) \<in> set data"
    and "split_ws (Moves r) = m1 # m2 # ms"
  shows "Moves r' = join_space (m2 # ms)
       \<and> (\<exists>board mv. Board C (FEN r) = Some board \<and> from_uci C m1 = Some mv
             \<and> FEN r' = fen C (push C board mv))"
proof -
  let ?p = "passing P data themes all_themes min_rating max_rating"
  from filter_puzzles_subset[OF assms(2)] obtain data2 where
    l: "iterrows_loop C ?p ?p = (out, Inr data2)" and sub: "set res \<subseteq> set data2"
    by blast
  from loop_table_self[OF l passing_distinct[OF assms(1)]]
  have "data2 = map (\<lambda>x. (fst x, advance C (snd x) (snd x))) ?p" .
  with sub assms(3) obtain x where x: "x \<in> set ?p" "fst x = idx" "r' = advance C (snd x) (snd x)"
    by auto
  from passing_origin[OF assms(1,4) x(1,2)] have s: "snd x = r\<lparr>Rating := to_numeric P (Rating r)\<rparr>" .
  then have mv: "split_ws (Moves (snd x)) = m1 # m2 # ms" and f: "FEN (snd x) = FEN r"
    using assms(5) by simp_all
  from x(1) have "(fst x, snd x) \<in> set ?p" by simp
  from loop_parses[OF l this] mv obtain board mv' where
    ok: "Board C (FEN (snd x)) = Some board" "from_uci C m1 = Some mv'"
    by auto
  with x(3) mv f show ?thesis by (simp add: advance_def)
qed

text \<open>
  The example of the specification: the initial position with the moves
  \<^verbatim>\<open>e2e4 e7e5 g1f3\<close> comes back as the position after 1. e4 with the moves
  \<^verbatim>\<open>e7e5 g1f3\<close>.
\<close>

theorem filter_puzzles_advances_rows_witness:
  "filter_puzzles plain_frames mini_chess
       (range_index [puzzle (Text ''1500'') ''fork endgame'' ''e2e4 e7e5 g1f3''])
       (Some ''fork'') True (Some 1000) (Some 2000) (Some 10)
     = ([], Inr [(0, \<lparr>FEN = fen_e4, Rating = Num 1500, Themes = Some ''fork endgame'',
                       Moves = ''e7e5 g1f3''\<rparr>)])
   \<and> ''e7e5 g1f3'' = join_space [''e7e5'', ''g1f3'']
   \<and> (\<exists>board mv. Board mini_chess start_fen = Some board \<and> from_uci mini_chess ''e2e4'' = Some mv
         \<and> fen_e4 = fen mini_chess (push mini_chess board mv))"
proof -
  let ?data = "range_index [puzzle (Text ''1500'') ''fork endgame'' ''e2e4 e7e5 g1f3'']"
  let ?r' = "\<lparr>FEN = fen_e4, Rating = Num 1500, Themes = Some ''fork endgame'', Moves = ''e7e5 g1f3''\<rparr>"
  have h1: "distinct (map fst ?data)"
    by (simp add: range_index_def upt_rec)
  have h2: "filter_puzzles plain_frames mini_chess ?data (Some ''fork'') True (Some 1000) (Some 2000) (Some 10)
      = ([], Inr [(0, ?r')])"
    by (simp add: filter_defs example_defs)
  have h3: "(0, ?r') \<in> set [(0, ?r')]" by simp
  have h4: "(0, puzzle (Text ''1500'') ''fork endgame'' ''e2e4 e7e5 g1f3'') \<in> set ?data"
    by (simp add: range_index_def upt_rec)
  have h5: "split_ws (Moves (puzzle (Text ''1500'') ''fork endgame'' ''e2e4 e7e5 g1f3''))
      = ''e2e4'' # ''e7e5'' # [''g1f3'']"
    by (simp add: example_defs)
  from filter_puzzles_advances_rows[OF h1 h2 h3 h4 h5] h2 show ?thesis
    by (simp add: puzzle_def)
qed

section \<open>The rating filter\<close>

text \<open>
  Claim C3 as stated fails for a bound of zero: with the maximum rating 0 a row rated
  1500 is returned, since the test of line 15 reads the bound 0 as absent.
\<close>

theorem filter_puzzles_zero_maximum_counterexample:
  "filter_puzzles plain_frames mini_chess
       (range_index [puzzle (Num 1500) ''fork'' ''e2e4 e7e5 g1f3''])
       None True None (Some 0) (Some 10)
     = ([], Inr [(0, \<lparr>FEN = fen_e4, Rating = Num 1500, Themes = Some ''fork'',
                       Moves = ''e7e5 g1f3''\<rparr>)])
   \<and> \<not> (1500 :: int) \<le> 0"
  by (simp add: filter_defs example_defs)

text \<open>
  Claim C3, amended. Let the bounds and the numbers of the Rating column be of magnitude
  at most \<open>2 ^ 53\<close>, so that a column of floats holds them as they are. Every row that
  \<^verbatim>\<open>filter_puzzles\<close> returns has a numeric Rating that is at least the minimum when the
  minimum is present and not zero, and at most the maximum when the maximum is present
  and not zero. When such a bound is given and the labels are distinct, no returned row
  comes from a row whose Rating fails numeric coercion.
\<close>

theorem filter_puzzles_rating_bounds:
  assumes "filter_puzzles P C data themes all_themes min_rating max_rating n = (out, Inr res)"
    and "(idx, r) \<in> set res"
    and "exact_bound min_rating" and "exact_bound max_rating"
    and "list_all (\<lambda>x. exact_cell (Rating (snd x))) (coerce_rating P data)"
  shows "(min_rating = Some lo \<and> lo \<noteq> 0 \<longrightarrow> (\<exists>v. Rating r = Num v \<and> lo \<le> v))
       \<and> (max_rating = Some hi \<and> hi \<noteq> 0 \<longrightarrow> (\<exists>v. Rating r = Num v \<and> v \<le> hi))
       \<and> (distinct (map fst data) \<and> (min_rating = Some b \<or> max_rating = Some b) \<and> b \<noteq> 0
            \<and> (idx, r0) \<in> set data
          \<longrightarrow> to_numeric P (Rating r0) \<noteq> NaN)"
proof -
  let ?p = "passing P data themes all_themes min_rating max_rating"
  from filter_puzzles_subset[OF assms(1)] obtain data2 where
    l: "iterrows_loop C ?p ?p = (out, Inr data2)" and sub: "set res \<subseteq> set data2"
    by blast
  from sub assms(2) have "kept_columns (idx, r) \<in> set (map kept_columns data2)" by auto
  with loop_columns[OF l] obtain x where
    x: "x \<in> set ?p" "fst x = idx" "Rating (snd x) = Rating r"
    by (auto simp: kept_columns_def)
  note ok = passing_member[OF x(1)]
  from ok(1) assms(5) x(3) have ex: "exact_cell (Rating r)"
    by (auto simp: list_all_iff)
  have lo: "\<exists>v. Rating r = Num v \<and> lo \<le> v" if "min_rating = Some lo" "lo \<noteq> 0" for lo
  proof -
    from ok(2) that x(3) have "cell_ge (float_column (coerce_rating P data)) (Rating r) lo"
      by (simp add: lo_ok_def)
    moreover from assms(3) that(1) have "exact lo" by (simp add: exact_bound_def)
    ultimately show ?thesis using ex by (rule cell_ge_exact)
  qed
  have hi: "\<exists>v. Rating r = Num v \<and> v \<le> hi" if "max_rating = Some hi" "hi \<noteq> 0" for hi
  proof -
    from ok(3) that x(3) have "cell_le (float_column (coerce_rating P data)) (Rating r) hi"
      by (simp add: hi_ok_def)
    moreover from assms(4) that(1) have "exact hi" by (simp add: exact_bound_def)
    ultimately show ?thesis using ex by (rule cell_le_exact)
  qed
  have nan: "to_numeric P (Rating r0) \<noteq> NaN"
    if d: "distinct (map fst data)" and b: "(min_rating = Some b \<or> max_rating = Some b)" "b \<noteq> 0"
      and r0: "(idx, r0) \<in> set data" for b r0
  proof -
    from passing_origin[OF d r0 x(1,2)] x(3) have "Rating r = to_numeric P (Rating r0)" by simp
    with b lo hi show ?thesis by auto
  qed
  have 1: "min_rating = Some lo \<and> lo \<noteq> 0 \<longrightarrow> (\<exists>v. Rating r = Num v \<and> lo \<le> v)"
    using lo by blast
  have 2: "max_rating = Some hi \<and> hi \<noteq> 0 \<longrightarrow> (\<exists>v. Rating r = Num v \<and> v \<le> hi)"
    using hi by blast
  have 3: "distinct (map fst data) \<and> (min_rating = Some b \<or> max_rating = Some b) \<and> b \<noteq> 0
            \<and> (idx, r0) \<in> set data \<longrightarrow> to_numeric P (Rating r0) \<noteq> NaN"
    using nan by blast
  from 1 2 3 show ?thesis by (intro conjI)
qed

text \<open>
  The amended claim C3 on the example row, with the bounds 1000 and 2000.
\<close>

theorem filter_puzzles_rating_bounds_witness:
  "filter_puzzles plain_frames mini_chess
       (range_index [puzzle (Text ''1500'') ''fork endgame'' ''e2e4 e7e5 g1f3''])
       (Some ''fork'') True (Some 1000) (Some 2000) (Some 10)
     = ([], Inr [(0, \<lparr>FEN = fen_e4, Rating = Num 1500, Themes = Some ''fork endgame'',
                       Moves = ''e7e5 g1f3''\<rparr>)])
   \<and> exact_bound (Some 1000) \<and> exact_bound (Some 2000)
   \<and> (\<exists>v. Num 1500 = Num v \<and> 1000 \<le> v) \<and> (\<exists>v. Num 1500 = Num v \<and> v \<le> 2000)
   \<and> to_numeric plain_frames (Text ''1500'') \<noteq> NaN"
proof -
  let ?data = "range_index [puzzle (Text ''1500'') ''fork endgame'' ''e2e4 e7e5 g1f3'']"
  let ?r' = "\<lparr>FEN = fen_e4, Rating = Num 1500, Themes = Some ''fork endgame'', Moves = ''e7e5 g1f3''\<rparr>"
  have h1: "filter_puzzles plain_frames mini_chess ?data (Some ''fork'') True (Some 1000) (Some 2000) (Some 10)
      = ([], Inr [(0, ?r')])"
    by (simp add: filter_defs example_defs)
  have h2: "(0, ?r') \<in> set [(0, ?r')]" by simp
  have h3: "exact_bound (Some 1000)" by (simp add: exact_bound_def exact_def)
  have h4: "exact_bound (Some 2000)" by (simp add: exact_bound_def exact_def)
  have h5: "list_all (\<lambda>x. exact_cell (Rating (snd x))) (coerce_rating plain_frames ?data)"
    by (simp add: coerce_rating_def exact_cell_def exact_def example_defs)
  have d: "distinct (map fst ?data)" by (simp add: range_index_def upt_rec)
  have m: "(0, puzzle (Text ''1500'') ''fork endgame'' ''e2e4 e7e5 g1f3'') \<in> set ?data"
    by (simp add: range_index_def upt_rec)
  note t = filter_puzzles_rating_bounds[OF h1 h2 h3 h4 h5, of 1000 2000 1000
      "puzzle (Text ''1500'') ''fork endgame'' ''e2e4 e7e5 g1f3''"]
  from t have lo: "\<exists>v. Num 1500 = Num v \<and> 1000 \<le> v" by simp
  from t have hi: "\<exists>v. Num 1500 = Num v \<and> v \<le> 2000" by simp
  from t d m have "to_numeric plain_frames (Rating (puzzle (Text ''1500'') ''fork endgame'' ''e2e4 e7e5 g1f3'')) \<noteq> NaN"
    by simp
  with lo hi h3 h4
  show ?thesis using h1 by (simp add: puzzle_def)
qed

section \<open>Rows with fewer than two moves\<close>

text \<open>
  Claim C4 as stated fails on the number in the diagnostic. Of two rows, the first
  is dropped by the minimum rating and the second has a single move: it is the first
  row of the pass, and the line printed names row 2, its label plus one.
\<close>

theorem filter_puzzles_diagnostic_counterexample:
  "passing plain_frames
       (range_index [puzzle (Num 500) ''endgame'' ''e2e4 e7e5 g1f3'', puzzle (Num 1500) ''endgame'' ''e7e5''])
       None True (Some 1000) None
     = [(1, puzzle (Num 1500) ''endgame'' ''e7e5'')]
   \<and> fst (filter_puzzles plain_frames mini_chess
       (range_index [puzzle (Num 500) ''endgame'' ''e2e4 e7e5 g1f3'', puzzle (Num 1500) ''endgame'' ''e7e5''])
       None True (Some 1000) None (Some 10))
     = [''Skipping row 2: Insufficient moves'']
   \<and> fst (filter_puzzles plain_frames mini_chess
       (range_index [puzzle (Num 500) ''endgame'' ''e2e4 e7e5 g1f3'', puzzle (Num 1500) ''endgame'' ''e7e5''])
       None True (Some 1000) None (Some 10))
     \<noteq> [''Skipping row 1: Insufficient moves'']"
  by (simp add: filter_defs example_defs)

text \<open>
  Claim C4, amended. When \<^verbatim>\<open>filter_puzzles\<close> returns a table, it has printed one
  diagnostic for each row that passed the rating and theme filters with fewer than two
  moves, in order, and each names the row by its index label plus one. For a table read
  by \<^verbatim>\<open>load_puzzles\<close> that is the one-based position of the row in the loaded table, not
  its position among the rows of the current pass. With distinct labels, such a row
  keeps its FEN and Moves cells.
\<close>

theorem filter_puzzles_skips_short_rows:
  assumes "distinct (map fst data)"
    and "filter_puzzles P C data themes all_themes min_rating max_rating n = (out, Inr res)"
  shows "out = map (\<lambda>x. skip_message (fst x))
                 (filter (\<lambda>x. length (split_ws (Moves (snd x))) < 2)
                    (passing P data themes all_themes min_rating max_rating))
       \<and> (\<forall>idx r r'. (idx, r) \<in> set (passing P data themes all_themes min_rating max_rating)
              \<and> length (split_ws (Moves r)) < 2 \<and> (idx, r') \<in> set res
            \<longrightarrow> FEN r' = FEN r \<and> Moves r' = Moves r)"
proof -
  let ?p = "passing P data themes all_themes min_rating max_rating"
  from filter_puzzles_subset[OF assms(2)] obtain data2 where
    l: "iterrows_loop C ?p ?p = (out, Inr data2)" and sub: "set res \<subseteq> set data2"
    by blast
  have dp: "distinct (map fst ?p)" by (rule passing_distinct[OF assms(1)])
  have printed: "out = map (\<lambda>x. skip_message (fst x)) (filter (\<lambda>x. length (split_ws (Moves (snd x))) < 2) ?p)"
    using loop_printed[OF l] by (simp add: short_def[abs_def])
  have same: "FEN r' = FEN r \<and> Moves r' = Moves r"
    if m: "(idx, r) \<in> set ?p" and s: "length (split_ws (Moves r)) < 2" and o: "(idx, r') \<in> set res"
    for idx r r'
  proof -
    from loop_table_self[OF l dp] have "data2 = map (\<lambda>x. (fst x, advance C (snd x) (snd x))) ?p" .
    with sub o obtain x where x: "x \<in> set ?p" "fst x = idx" "r' = advance C (snd x) (snd x)"
      by auto
    from x(1,2) have "(idx, snd x) \<in> set ?p" by auto
    with dp m have "snd x = r" by (metis eq_key_imp_eq_value)
    with x(3) s show ?thesis by (simp add: advance_def)
  qed
  from printed same show ?thesis by blast
qed

text \<open>
  The amended claim C4 on the table of the counterexample.
\<close>

theorem filter_puzzles_skips_short_rows_witness:
  "filter_puzzles plain_frames mini_chess
       (range_index [puzzle (Num 500) ''endgame'' ''e2e4 e7e5 g1f3'', puzzle (Num 1500) ''endgame'' ''e7e5''])
       None True (Some 1000) None (Some 10)
     = ([''Skipping row 2: Insufficient moves''], Inr [(1, puzzle (Num 1500) ''endgame'' ''e7e5'')])
   \<and> [''Skipping row 2: Insufficient moves'']
       = map (\<lambda>x. skip_message (fst x)) [(1, puzzle (Num 1500) ''endgame'' ''e7e5'')]"
proof -
  let ?data = "range_index [puzzle (Num 500) ''endgame'' ''e2e4 e7e5 g1f3'', puzzle (Num 1500) ''endgame'' ''e7e5'']"
  have h1: "distinct (map fst ?data)"
    by (simp add: range_index_def upt_rec)
  have h2: "filter_puzzles plain_frames mini_chess ?data None True (Some 1000) None (Some 10)
     = ([''Skipping row 2: Insufficient moves''], Inr [(1, puzzle (Num 1500) ''endgame'' ''e7e5'')])"
    by (simp add: filter_defs example_defs)
  have p: "passing plain_frames ?data None True (Some 1000) None = [(1, puzzle (Num 1500) ''endgame'' ''e7e5'')]"
    by (simp add: filter_defs example_defs)
  from filter_puzzles_skips_short_rows[OF h1 h2] h2 p show ?thesis
    by (simp add: example_defs)
qed

section \<open>The result cap\<close>

text \<open>
  Claim C5. For a positive cap \<open>n\<close>, the table that \<^verbatim>\<open>filter_puzzles\<close> returns has
  \<open>min n k\<close> rows, where \<open>k\<close> rows pass the rating and theme filters, and its rows are
  the first rows of the passing ones, in their order: same labels, same Rating and
  Themes cells.
\<close>

theorem filter_puzzles_cap_prefix:
  assumes "0 < n"
    and "filter_puzzles P C data themes all_themes min_rating max_rating (Some n) = (out, Inr res)"
  shows "length res = min (nat n) (length (passing P data themes all_themes min_rating max_rating))
       \<and> map kept_columns res
           = take (nat n) (map kept_columns (passing P data themes all_themes min_rating max_rating))"
proof -
  let ?p = "passing P data themes all_themes min_rating max_rating"
  from filter_puzzles_Inr[OF assms(2)] obtain data2 where
    l: "iterrows_loop C ?p ?p = (out, Inr data2)"
    and r: "res = (if int (length data2) \<le> n then data2 else iloc_head n data2)"
    by auto
  from assms(1) r have res: "res = take (nat n) data2"
    by (auto simp: iloc_head_def)
  have cols: "map kept_columns data2 = map kept_columns ?p" by (rule loop_columns[OF l])
  then have len: "length data2 = length ?p" by (metis length_map)
  from res len have "length res = min (nat n) (length ?p)" by (simp add: min.commute)
  moreover have "map kept_columns res = take (nat n) (map kept_columns ?p)"
    unfolding res take_map[symmetric] cols ..
  ultimately show ?thesis by blast
qed

text \<open>
  Claim C5 on two passing rows with the cap 1: the first row alone is returned.
\<close>

theorem filter_puzzles_cap_prefix_witness:
  "filter_puzzles plain_frames mini_chess
       (range_index [puzzle (Num 1500) ''fork'' ''e2e4 e7e5 g1f3'', puzzle (Num 1600) ''pin'' ''e2e4 e7e5''])
       None True None None (Some 1)
     = ([], Inr [(0, \<lparr>FEN = fen_e4, Rating = Num 1500, Themes = Some ''fork'', Moves = ''e7e5 g1f3''\<rparr>)])
   \<and> length (passing plain_frames
         (range_index [puzzle (Num 1500) ''fork'' ''e2e4 e7e5 g1f3'', puzzle (Num 1600) ''pin'' ''e2e4 e7e5''])
         None True None None) = 2
   \<and> length [(0 :: int, \<lparr>FEN = fen_e4, Rating = Num 1500, Themes = Some ''fork'', Moves = ''e7e5 g1f3''\<rparr>)]
       = min (nat 1) 2"
proof -
  let ?data = "range_index [puzzle (Num 1500) ''fork'' ''e2e4 e7e5 g1f3'', puzzle (Num 1600) ''pin'' ''e2e4 e7e5'']"
  have h1: "(0 :: int) < 1" by simp
  have h2: "filter_puzzles plain_frames mini_chess ?data None True None None (Some 1)
     = ([], Inr [(0, \<lparr>FEN = fen_e4, Rating = Num 1500, Themes = Some ''fork'', Moves = ''e7e5 g1f3''\<rparr>)])"
    by (simp add: filter_defs example_defs)
  have p: "length (passing plain_frames ?data None True None None) = 2"
    by (simp add: filter_defs example_defs)
  from filter_puzzles_cap_prefix[OF h1 h2] h2 p show ?thesis
    by simp
qed

text \<open>
  Claim C8 as stated fails for the cap zero: \<^verbatim>\<open>filter_puzzles\<close> raises no error and
  returns the empty table.
\<close>

theorem filter_puzzles_zero_cap_counterexample:
  "filter_puzzles plain_frames mini_chess
       (range_index [puzzle (Num 1500) ''fork'' ''e2e4 e7e5 g1f3''])
       None True None None (Some 0)
     = ([], Inr [])"
  by (simp add: filter_defs example_defs)

text \<open>
  Claim C8, amended. With the cap absent \<^verbatim>\<open>filter_puzzles\<close> ends in an error, for
  every table and every choice of filters: the type error of line 41 when the pass over
  the rows has ended without an error, and the error of that pass otherwise. With the
  cap zero it raises no error of its own: it returns the empty table when the pass over
  the rows has ended without an error, and the error of that pass otherwise. In neither
  case does it return the rows without a limit.
\<close>

theorem filter_puzzles_cap_absent_or_zero:
  "(\<exists>e. snd (filter_puzzles P C data themes all_themes min_rating max_rating None) = Inl e)
   \<and> (iterrows_loop C (passing P data themes all_themes min_rating max_rating)
          (passing P data themes all_themes min_rating max_rating) = (out, Inr data2)
        \<longrightarrow> filter_puzzles P C data themes all_themes min_rating max_rating (Some 0) = (out, Inr [])
          \<and> filter_puzzles P C data themes all_themes min_rating max_rating None = (out, Inl TypeError))
   \<and> (iterrows_loop C (passing P data themes all_themes min_rating max_rating)
          (passing P data themes all_themes min_rating max_rating) = (out, Inl e)
        \<longrightarrow> filter_puzzles P C data themes all_themes min_rating max_rating (Some 0) = (out, Inl e)
          \<and> filter_puzzles P C data themes all_themes min_rating max_rating None = (out, Inl e))"
proof -
  have 1: "\<exists>e. snd (filter_puzzles P C data themes all_themes min_rating max_rating None) = Inl e"
    by (auto simp: filter_puzzles_def cap_stage_def Let_def split: prod.splits sum.splits)
  have 2: "iterrows_loop C (passing P data themes all_themes min_rating max_rating)
          (passing P data themes all_themes min_rating max_rating) = (out, Inr data2)
        \<longrightarrow> filter_puzzles P C data themes all_themes min_rating max_rating (Some 0) = (out, Inr [])
          \<and> filter_puzzles P C data themes all_themes min_rating max_rating None = (out, Inl TypeError)"
    by (simp add: filter_puzzles_def cap_stage_def iloc_head_def Let_def)
  have 3: "iterrows_loop C (passing P data themes all_themes min_rating max_rating)
          (passing P data themes all_themes min_rating max_rating) = (out, Inl e)
        \<longrightarrow> filter_puzzles P C data themes all_themes min_rating max_rating (Some 0) = (out, Inl e)
          \<and> filter_puzzles P C data themes all_themes min_rating max_rating None = (out, Inl e)"
    by (simp add: filter_puzzles_def Let_def)
  from 1 2 3 show ?thesis by (intro conjI)
qed

text \<open>
  The amended claim C8 on the example row: the empty table for the cap zero, the type
  error for the absent cap.
\<close>

theorem filter_puzzles_cap_absent_or_zero_witness:
  "iterrows_loop mini_chess
       (passing plain_frames (range_index [puzzle (Num 1500) ''fork'' ''e2e4 e7e5 g1f3'']) None True None None)
       (passing plain_frames (range_index [puzzle (Num 1500) ''fork'' ''e2e4 e7e5 g1f3'']) None True None None)
     = ([], Inr [(0, \<lparr>FEN = fen_e4, Rating = Num 1500, Themes = Some ''fork'', Moves = ''e7e5 g1f3''\<rparr>)])
   \<and> filter_puzzles plain_frames mini_chess
       (range_index [puzzle (Num 1500) ''fork'' ''e2e4 e7e5 g1f3'']) None True None None (Some 0)
     = ([], Inr [])
   \<and> filter_puzzles plain_frames mini_chess
       (range_index [puzzle (Num 1500) ''fork'' ''e2e4 e7e5 g1f3'']) None True None None None
     = ([], Inl TypeError)"
proof -
  let ?data = "range_index [puzzle (Num 1500) ''fork'' ''e2e4 e7e5 g1f3'']"
  let ?p = "passing plain_frames ?data None True None None"
  have h: "iterrows_loop mini_chess ?p ?p
     = ([], Inr [(0, \<lparr>FEN = fen_e4, Rating = Num 1500, Themes = Some ''fork'', Moves = ''e7e5 g1f3''\<rparr>)])"
    by (simp add: filter_defs example_defs)
  from filter_puzzles_cap_absent_or_zero[of plain_frames mini_chess ?data None True None None
      "[]" "[(0, \<lparr>FEN = fen_e4, Rating = Num 1500, Themes = Some ''fork'', Moves = ''e7e5 g1f3''\<rparr>)]"] h
  show ?thesis by simp
qed

section \<open>Translating moves\<close>

text \<open>
  Claim C6 as stated fails: the empty string splits at spaces into one empty piece,
  which is not a move, so \<^verbatim>\<open>translate_moves\<close> raises instead of returning the empty
  string.
\<close>

theorem translate_moves_empty_counterexample:
  "translate_moves mini_chess [] start_fen = Inl (InvalidMoveError [])
   \<and> translate_moves mini_chess [] start_fen \<noteq> Inr []"
  by (simp add: translate_moves_def example_defs)

text \<open>
  Claim C6, amended. When the chess library rejects the empty string as a move,
  \<^verbatim>\<open>translate_moves\<close> on the empty move string fails for every starting position, and
  when the position parses the failure is the invalid-move error for the empty piece.
\<close>

theorem translate_moves_empty_fails:
  assumes "from_uci C [] = None"
  shows "(\<exists>e. translate_moves C [] fen_text = Inl e)
       \<and> (Board C fen_text = Some board \<longrightarrow> translate_moves C [] fen_text = Inl (InvalidMoveError []))"
  using assms by (simp add: translate_moves_def split_space_def split: option.splits)

text \<open>
  The amended claim C6 on the initial position.
\<close>

theorem translate_moves_empty_fails_witness:
  "from_uci mini_chess [] = None
   \<and> Board mini_chess start_fen = Some start_fen
   \<and> translate_moves mini_chess [] start_fen = Inl (InvalidMoveError [])"
proof -
  have h: "from_uci mini_chess [] = None" by (simp add: example_defs)
  have b: "Board mini_chess start_fen = Some start_fen" by (simp add: example_defs)
  from translate_moves_empty_fails[OF h, of start_fen start_fen] h b show ?thesis by simp
qed

text \<open>
  Claim C7 as stated fails for a move that is not legal: the library translates the
  pawn move \<^verbatim>\<open>e2e5\<close> in the initial position, and \<^verbatim>\<open>translate_moves\<close> returns its
  notation. The script makes no test of legality, and neither do the calls it makes.
\<close>

theorem translate_moves_illegal_move_counterexample:
  "\<not> legal mini_chess start_fen ''e2e5''
   \<and> Board mini_chess start_fen = Some start_fen
   \<and> from_uci mini_chess ''e2e5'' = Some ''e2e5''
   \<and> translate_moves mini_chess ''e2e5'' start_fen = Inr ''e5''"
  by (simp add: translate_moves_def example_defs)

text \<open>
  Claim C7, amended. Let the position parse and let the move string split into the
  pieces \<open>pre\<close>, then \<open>piece\<close>, then \<open>post\<close>, where the pieces of \<open>pre\<close> translate and
  lead to the board \<open>board\<close>. When \<open>piece\<close> is malformed, or is a move that the library
  refuses to translate on \<open>board\<close>, \<^verbatim>\<open>translate_moves\<close> fails with the error raised at
  \<open>piece\<close>, and the moves translated before are not returned. When the library
  translates \<open>piece\<close>, legal or not, the pass goes on with the pieces of \<open>post\<close>.
\<close>

theorem translate_moves_stops_at_rejected_move:
  assumes "Board C fen_text = Some board0"
    and "split_space moves = pre @ piece # post"
    and "translate_loop C pre board0 [] = Inr (board, proper_moves)"
  shows "(from_uci C piece = None
            \<longrightarrow> translate_moves C moves fen_text = Inl (InvalidMoveError piece))
       \<and> (from_uci C piece = Some mv \<and> san C board mv = None
            \<longrightarrow> translate_moves C moves fen_text = Inl (AssertionError piece))
       \<and> (from_uci C piece = Some mv \<and> san C board mv = Some s
            \<longrightarrow> translate_moves C moves fen_text
                  = (case translate_loop C post (push C board mv) (proper_moves @ [s]) of
                       Inl e \<Rightarrow> Inl e
                     | Inr (final_board, all_moves) \<Rightarrow> Inr (join_space all_moves)))"
proof -
  from translate_loop_append[OF assms(3), of "piece # post"] assms(2)
  have step: "translate_loop C (split_space moves) board0 []
      = translate_loop C (piece # post) board proper_moves"
    by simp
  have 1: "from_uci C piece = None
      \<longrightarrow> translate_moves C moves fen_text = Inl (InvalidMoveError piece)"
    using assms(1) step by (simp add: translate_moves_def)
  have 2: "from_uci C piece = Some mv \<and> san C board mv = None
      \<longrightarrow> translate_moves C moves fen_text = Inl (AssertionError piece)"
    using assms(1) step by (simp add: translate_moves_def)
  have 3: "from_uci C piece = Some mv \<and> san C board mv = Some s
      \<longrightarrow> translate_moves C moves fen_text
            = (case translate_loop C post (push C board mv) (proper_moves @ [s]) of
                 Inl e \<Rightarrow> Inl e
               | Inr (final_board, all_moves) \<Rightarrow> Inr (join_space all_moves))"
    using assms(1) step by (simp add: translate_moves_def)
  from 1 2 3 show ?thesis by (intro conjI)
qed

text \<open>
  The amended claim C7 on the moves \<^verbatim>\<open>e2e4 e2e4 e7e5\<close> from the initial position: the
  square e2 is empty after the first move, so the second is refused.
\<close>

theorem translate_moves_stops_at_rejected_move_witness:
  "Board mini_chess start_fen = Some start_fen
   \<and> split_space ''e2e4 e2e4 e7e5'' = [''e2e4''] @ ''e2e4'' # [''e7e5'']
   \<and> translate_loop mini_chess [''e2e4''] start_fen [] = Inr (fen_e4, [''e4''])
   \<and> from_uci mini_chess ''e2e4'' = Some ''e2e4'' \<and> san mini_chess fen_e4 ''e2e4'' = None
   \<and> translate_moves mini_chess ''e2e4 e2e4 e7e5'' start_fen = Inl (AssertionError ''e2e4'')"
proof -
  have h1: "Board mini_chess start_fen = Some start_fen" by (simp add: example_defs)
  have h2: "split_space ''e2e4 e2e4 e7e5'' = [''e2e4''] @ ''e2e4'' # [''e7e5'']"
    by (simp add: example_defs)
  have h3: "translate_loop mini_chess [''e2e4''] start_fen [] = Inr (fen_e4, [''e4''])"
    by (simp add: example_defs)
  have s: "from_uci mini_chess ''e2e4'' = Some ''e2e4''" "san mini_chess fen_e4 ''e2e4'' = None"
    by (simp_all add: example_defs)
  from translate_moves_stops_at_rejected_move[OF h1 h2 h3, of "''e2e4''" "''e4''"] s
  have "translate_moves mini_chess ''e2e4 e2e4 e7e5'' start_fen = Inl (AssertionError ''e2e4'')"
    by simp
  with h1 h2 h3 s show ?thesis by simp
qed

section \<open>The turn indicator\<close>

text \<open>
  Claim C9. For a position that parses, \<^verbatim>\<open>black_or_white\<close> with \<open>answer\<close> true returns
  the white circle exactly when White is to move and the black circle exactly when Black
  is; with \<open>answer\<close> false it returns the ellipsis prefix exactly when Black is to move
  and the empty string exactly when White is.
\<close>

theorem black_or_white_by_turn:
  assumes "Board C fen_text = Some board"
  shows "(black_or_white C fen_text True = Inr (bs # ''whitecircle'') \<longleftrightarrow> turn C board)
       \<and> (black_or_white C fen_text True = Inr (bs # ''blackcircle'') \<longleftrightarrow> \<not> turn C board)
       \<and> (black_or_white C fen_text False = Inr ''... '' \<longleftrightarrow> \<not> turn C board)
       \<and> (black_or_white C fen_text False = Inr [] \<longleftrightarrow> turn C board)"
  using assms by (simp add: black_or_white_def)

text \<open>
  Claim C9 on the position after 1. e4, with Black to move.
\<close>

theorem black_or_white_by_turn_witness:
  "Board mini_chess fen_e4 = Some fen_e4 \<and> \<not> turn mini_chess fen_e4
   \<and> black_or_white mini_chess fen_e4 True = Inr (bs # ''blackcircle'')
   \<and> black_or_white mini_chess fen_e4 False = Inr ''... ''"
proof -
  have h: "Board mini_chess fen_e4 = Some fen_e4" by (simp add: example_defs)
  have t: "\<not> turn mini_chess fen_e4" by (simp add: example_defs)
  from black_or_white_by_turn[OF h] h t show ?thesis by simp
qed

section \<open>The title written by main\<close>



end
